theory Spec2Isabelle
  imports Main "HOL-Library.Word"
begin

unbundle bit_operations_syntax

section \<open>Machine types\<close>

text \<open>
  The writer of \<^verbatim>\<open>io/osrm_writer.hpp\<close> copies the object representation of a
  value to a \<^verbatim>\<open>std::ostream\<close>. A value of a C++ type \<^verbatim>\<open>T\<close> is therefore
  modelled by its object representation, the list of its \<^verbatim>\<open>sizeof(T)\<close> bytes
  (what \<^verbatim>\<open>reinterpret_cast<const char *>(&x)\<close> points to). \<^verbatim>\<open>std::size_t\<close>
  is a 64-bit word and \<^verbatim>\<open>unsigned\<close> a 32-bit word (the LP64 platforms the
  program is built for); their arithmetic wraps around.
\<close>

type_synonym byte = "8 word"
type_synonym size_t = "64 word"
type_synonym unsigned = "32 word"
type_synonym object = "byte list"

text \<open>\<^verbatim>\<open>sizeof(T)\<close> of the value's type, as a \<^verbatim>\<open>std::size_t\<close>.\<close>

definition sizeof :: "object \<Rightarrow> size_t" where
  "sizeof obj = of_nat (length obj)"

text \<open>
  The object representation of an \<^verbatim>\<open>unsigned\<close>: four bytes, least significant
  first (the byte order of the x86-64 targets), and the value a reader recovers from
  four such bytes.
\<close>

definition unsigned_bytes :: "unsigned \<Rightarrow> object" where
  "unsigned_bytes v =
     [ucast v, ucast (drop_bit 8 v), ucast (drop_bit 16 v), ucast (drop_bit 24 v)]"

fun read_unsigned :: "object \<Rightarrow> unsigned" where
  "read_unsigned (b0 # b1 # b2 # b3 # rest) =
     ucast b0 OR push_bit 8 (ucast b1) OR push_bit 16 (ucast b2) OR push_bit 24 (ucast b3)"
| "read_unsigned bs = 0"

section \<open>The output stream\<close>

text \<open>
  \<^verbatim>\<open>std::ostream\<close> belongs to the standard library, not to the repository. It is
  modelled as the standard describes a stream over a seekable byte sequence whose
  exception mask is the default one (no stream operation throws):
  \<^item> \<open>seq\<close> is the byte sequence of the device and \<open>put\<close> the put position;
  \<^item> \<open>failed\<close> is \<^verbatim>\<open>fail()\<close> (failbit or badbit); it is sticky, nothing modelled
    here clears it;
  \<^item> \<open>journal\<close> records every \<^verbatim>\<open>write\<close> call that reached the device, with the
    position its first byte landed at. No operation reads it: it only serves to state
    where bytes were written.
  A write on a stream in good state succeeds (the device is unbounded); a write past
  the end of the sequence first fills the gap with zero bytes, as a file does.
  Positions (\<^verbatim>\<open>pos_type\<close>) are integers, \<open>-1\<close> being the invalid position.
\<close>

record ostream =
  seq :: "byte list"
  put :: nat
  failed :: bool
  journal :: "(nat \<times> object) list"

text \<open>The byte sequence after \<open>d\<close> has been stored at position \<open>p\<close>.\<close>

definition overwrite :: "nat \<Rightarrow> byte list \<Rightarrow> byte list \<Rightarrow> byte list" where
  "overwrite p d xs =
     take p xs @ replicate (p - length xs) 0 @ d @ drop (p + length d) xs"

text \<open>\<^verbatim>\<open>tellp()\<close>: \<open>-1\<close> when \<^verbatim>\<open>fail()\<close>, the put position otherwise.\<close>

definition tellp :: "ostream \<Rightarrow> int" where
  "tellp s = (if failed s then - 1 else int (put s))"

text \<open>
  \<^verbatim>\<open>seekp(pos)\<close>: nothing when \<^verbatim>\<open>fail()\<close>; otherwise the put position moves to
  \<open>pos\<close>, and a position that is not valid sets failbit.
\<close>

definition seekp :: "int \<Rightarrow> ostream \<Rightarrow> ostream" where
  "seekp pos s =
     (if failed s then s
      else if pos < 0 then s\<lparr>failed := True\<rparr>
      else s\<lparr>put := nat pos\<rparr>)"

text \<open>
  \<^verbatim>\<open>write(data, n)\<close>: the sentry of a stream that is not good writes nothing (and
  sets failbit, which is set already); otherwise the bytes are stored at the put
  position, which advances by \<open>n\<close>.
\<close>

definition ostream_write :: "object \<Rightarrow> ostream \<Rightarrow> ostream" where
  "ostream_write d s =
     (if failed s then s
      else s\<lparr>seq := overwrite (put s) d (seq s),
             put := put s + length d,
             journal := journal s @ [(put s, d)]\<rparr>)"

text \<open>
  The conversions the source leaves implicit: \<^verbatim>\<open>pos_type\<close> to \<^verbatim>\<open>std::size_t\<close>
  in the constructor's initialiser (\<open>-1\<close> becomes the largest \<^verbatim>\<open>size_t\<close>), and
  \<^verbatim>\<open>std::size_t\<close> to \<^verbatim>\<open>pos_type\<close> (through the signed \<^verbatim>\<open>streamoff\<close>) in the
  argument of \<^verbatim>\<open>seekp\<close>.
\<close>

definition size_t_of_pos :: "int \<Rightarrow> size_t" where
  "size_t_of_pos p = word_of_int p"

definition pos_of_size_t :: "size_t \<Rightarrow> int" where
  "pos_of_size_t n = sint n"

section \<open>The policies\<close>

text \<open>
  Each policy is a struct with one static function \<^verbatim>\<open>Write\<close>. The stream is passed
  by reference in the source; here every function returns the stream it leaves
  behind next to its result.
\<close>

definition NoHeaderWritePolicy_Write ::
    "object \<Rightarrow> ostream \<Rightarrow> size_t \<Rightarrow> size_t \<Rightarrow> size_t \<times> ostream" where
  "NoHeaderWritePolicy_Write header stream segment_start count = (0, stream)"

definition NoTypeWritePolicy_Write ::
    "object \<Rightarrow> ostream \<Rightarrow> size_t \<Rightarrow> size_t \<Rightarrow> size_t \<Rightarrow> size_t \<times> ostream" where
  "NoTypeWritePolicy_Write item stream segment_start header_offset count = (0, stream)"

definition NoFinalizeWritePolicy_Write ::
    "ostream \<Rightarrow> size_t \<Rightarrow> size_t \<Rightarrow> size_t \<Rightarrow> size_t \<times> ostream" where
  "NoFinalizeWritePolicy_Write stream segment_start header_offset count = (0, stream)"

definition TrivialHeaderWritePolicy_Write ::
    "object \<Rightarrow> ostream \<Rightarrow> size_t \<Rightarrow> size_t \<Rightarrow> size_t \<times> ostream" where
  "TrivialHeaderWritePolicy_Write header stream segment_start count =
     (let offset = sizeof header;
          stream = ostream_write header stream
      in (offset, stream))"

definition TrivialTypeWritePolicy_Write ::
    "object \<Rightarrow> ostream \<Rightarrow> size_t \<Rightarrow> size_t \<Rightarrow> size_t \<Rightarrow> size_t \<times> ostream" where
  "TrivialTypeWritePolicy_Write item stream segment_start header_offset count =
     (let stream = ostream_write item stream
      in (1, stream))"

definition LengthPrefixHeaderWritePolicy_Write ::
    "object \<Rightarrow> ostream \<Rightarrow> size_t \<Rightarrow> size_t \<Rightarrow> size_t \<times> ostream" where
  "LengthPrefixHeaderWritePolicy_Write header stream segment_start count =
     (let reserved = (0 :: unsigned);
          stream = ostream_write (unsigned_bytes reserved) stream
      in (0, stream))"

definition LengthPrefixFinalizeWritePolicy_Write ::
    "ostream \<Rightarrow> size_t \<Rightarrow> size_t \<Rightarrow> size_t \<Rightarrow> size_t \<times> ostream" where
  "LengthPrefixFinalizeWritePolicy_Write stream segment_start header_offset count =
     (let here = tellp stream;
          stream = seekp (pos_of_size_t (segment_start + header_offset)) stream;
          len = (ucast count :: unsigned);
          stream = ostream_write (unsigned_bytes len) stream;
          stream = seekp here stream
      in (1, stream))"

text \<open>The template parameters of \<^verbatim>\<open>OSRMWriter\<close>: one policy for each role.\<close>

datatype HeaderWritePolicy = NoHeaderWritePolicy | TrivialHeaderWritePolicy | LengthPrefixHeaderWritePolicy

datatype TypeWritePolicy = NoTypeWritePolicy | TrivialTypeWritePolicy

datatype FinalizeWritePolicy = NoFinalizeWritePolicy | LengthPrefixFinalizeWritePolicy

fun HeaderWritePolicy_Write ::
    "HeaderWritePolicy \<Rightarrow> object \<Rightarrow> ostream \<Rightarrow> size_t \<Rightarrow> size_t \<Rightarrow> size_t \<times> ostream" where
  "HeaderWritePolicy_Write NoHeaderWritePolicy = NoHeaderWritePolicy_Write"
| "HeaderWritePolicy_Write TrivialHeaderWritePolicy = TrivialHeaderWritePolicy_Write"
| "HeaderWritePolicy_Write LengthPrefixHeaderWritePolicy = LengthPrefixHeaderWritePolicy_Write"

fun TypeWritePolicy_Write ::
    "TypeWritePolicy \<Rightarrow> object \<Rightarrow> ostream \<Rightarrow> size_t \<Rightarrow> size_t \<Rightarrow> size_t \<Rightarrow> size_t \<times> ostream" where
  "TypeWritePolicy_Write NoTypeWritePolicy = NoTypeWritePolicy_Write"
| "TypeWritePolicy_Write TrivialTypeWritePolicy = TrivialTypeWritePolicy_Write"

fun FinalizeWritePolicy_Write ::
    "FinalizeWritePolicy \<Rightarrow> ostream \<Rightarrow> size_t \<Rightarrow> size_t \<Rightarrow> size_t \<Rightarrow> size_t \<times> ostream" where
  "FinalizeWritePolicy_Write NoFinalizeWritePolicy = NoFinalizeWritePolicy_Write"
| "FinalizeWritePolicy_Write LengthPrefixFinalizeWritePolicy = LengthPrefixFinalizeWritePolicy_Write"

section \<open>The writer\<close>

text \<open>
  The data members of \<^verbatim>\<open>OSRMWriter\<close> besides the reference \<^verbatim>\<open>stream_\<close>: the
  stream is borrowed, so it is threaded through the member functions instead of being
  stored. The members \<^verbatim>\<open>segment_start_\<close>, \<^verbatim>\<open>header_offset_\<close> and \<^verbatim>\<open>count_\<close>
  carry the suffix \<open>_m\<close> here, since a name cannot end in an underscore. A writer
  type is the triple of its policies.
\<close>

record OSRMWriter =
  segment_start_m :: size_t
  header_offset_m :: size_t
  count_m :: size_t

type_synonym writer_type = "HeaderWritePolicy \<times> TypeWritePolicy \<times> FinalizeWritePolicy"

definition HeaderWriter :: writer_type where
  "HeaderWriter = (TrivialHeaderWritePolicy, NoTypeWritePolicy, NoFinalizeWritePolicy)"

definition EdgeWriter :: writer_type where
  "EdgeWriter = (LengthPrefixHeaderWritePolicy, TrivialTypeWritePolicy, LengthPrefixFinalizeWritePolicy)"

definition NodeWriter :: writer_type where
  "NodeWriter = (LengthPrefixHeaderWritePolicy, TrivialTypeWritePolicy, LengthPrefixFinalizeWritePolicy)"

text \<open>The constructor \<^verbatim>\<open>OSRMWriter(stream, header)\<close>.\<close>

fun OSRMWriter_ctor :: "writer_type \<Rightarrow> ostream \<Rightarrow> object \<Rightarrow> OSRMWriter \<times> ostream" where
  "OSRMWriter_ctor (H, I, F) stream header =
     (let segment_start = size_t_of_pos (tellp stream);
          count = 0;
          (header_offset, stream) = HeaderWritePolicy_Write H header stream segment_start count
      in (\<lparr>segment_start_m = segment_start, header_offset_m = header_offset, count_m = count\<rparr>,
          stream))"

text \<open>The member function \<^verbatim>\<open>Write(item)\<close>.\<close>

fun OSRMWriter_Write ::
    "writer_type \<Rightarrow> OSRMWriter \<Rightarrow> object \<Rightarrow> ostream \<Rightarrow> OSRMWriter \<times> ostream" where
  "OSRMWriter_Write (H, I, F) w item stream =
     (let (written, stream) =
            TypeWritePolicy_Write I item stream (segment_start_m w) (header_offset_m w) (count_m w)
      in (w\<lparr>count_m := count_m w + written\<rparr>, stream))"

text \<open>The member function \<^verbatim>\<open>Count()\<close>; it is const and returns a value only.\<close>

definition Count :: "OSRMWriter \<Rightarrow> size_t" where
  "Count w = count_m w"

text \<open>The destructor; the finalizer's result \<^verbatim>\<open>len\<close> is not used.\<close>

fun OSRMWriter_dtor :: "writer_type \<Rightarrow> OSRMWriter \<Rightarrow> ostream \<Rightarrow> ostream" where
  "OSRMWriter_dtor (H, I, F) w stream =
     (let (len, stream) =
            FinalizeWritePolicy_Write F stream (segment_start_m w) (header_offset_m w) (count_m w)
      in stream)"

text \<open>
  A caller's use of a writer: the writer is constructed, \<^verbatim>\<open>Write\<close> is called once
  for each item, in order (\<open>write_all\<close>), and the writer's scope ends. \<open>in_scope\<close> is
  the writer and the stream just before the scope ends, \<open>lifetime\<close> the stream the
  destructor leaves behind.
\<close>

fun write_all ::
    "writer_type \<Rightarrow> OSRMWriter \<Rightarrow> object list \<Rightarrow> ostream \<Rightarrow> OSRMWriter \<times> ostream" where
  "write_all T w [] stream = (w, stream)"
| "write_all T w (item # items) stream =
     (let (w, stream) = OSRMWriter_Write T w item stream
      in write_all T w items stream)"

definition in_scope ::
    "writer_type \<Rightarrow> ostream \<Rightarrow> object \<Rightarrow> object list \<Rightarrow> OSRMWriter \<times> ostream" where
  "in_scope T stream header items =
     (let (w, stream) = OSRMWriter_ctor T stream header
      in write_all T w items stream)"

definition lifetime :: "writer_type \<Rightarrow> ostream \<Rightarrow> object \<Rightarrow> object list \<Rightarrow> ostream" where
  "lifetime T stream header items =
     (let (w, stream) = in_scope T stream header items
      in OSRMWriter_dtor T w stream)"

text \<open>The \<^verbatim>\<open>write\<close> calls that reached the device between two states of a stream.\<close>

definition emitted :: "ostream \<Rightarrow> ostream \<Rightarrow> (nat \<times> object) list" where
  "emitted s s' = drop (length (journal s)) (journal s')"

text \<open>
  The journal entries of the items stored one after the other from position \<open>p\<close> on.
\<close>

fun item_writes :: "nat \<Rightarrow> object list \<Rightarrow> (nat \<times> object) list" where
  "item_writes p [] = []"
| "item_writes p (item # items) = (p, item) # item_writes (p + length item) items"

text \<open>
  Modelled from the spec: the reader of a counted-record segment is not in the source
  file. As the spec describes it, it reads the 4-byte count first and then exactly
  that many records of the width \<open>W\<close> it has agreed on with the writer.
\<close>

fun read_records :: "nat \<Rightarrow> nat \<Rightarrow> object \<Rightarrow> object list" where
  "read_records W 0 bs = []"
| "read_records W (Suc n) bs = take W bs # read_records W n (drop W bs)"

definition read_segment :: "nat \<Rightarrow> object \<Rightarrow> nat \<times> object list" where
  "read_segment W bs =
     (let n = unat (read_unsigned bs)
      in (n, read_records W n (drop 4 bs)))"






text \<open>A stream in good state over an empty device, for the closed examples below.\<close>

definition empty_stream :: ostream where
  "empty_stream = \<lparr>seq = [], put = 0, failed = False, journal = []\<rparr>"

section \<open>Bytes and words\<close>

lemma length_unsigned_bytes: "length (unsigned_bytes v) = 4"
  by (simp add: unsigned_bytes_def)

lemma unsigned_bytes_0: "unsigned_bytes 0 = [0, 0, 0, 0]"
  by (simp add: unsigned_bytes_def)

lemma read_unsigned_bytes: "read_unsigned (unsigned_bytes v @ rest) = v"
  unfolding unsigned_bytes_def
  apply simp
  apply (rule bit_word_eqI)
  subgoal for n
    by (cases "n < 8"; cases "n < 16"; cases "n < 24") (auto simp add: bit_simps)
  done

lemma sint_of_nat_small:
  assumes "p < 2 ^ 63"
  shows "sint (of_nat p :: size_t) = int p"
proof -
  from assms have small: "int p < 2 ^ 63"
    by (metis of_nat_less_iff of_nat_numeral of_nat_power)
  have "sint (of_nat p :: size_t) = sint (word_of_int (int p) :: size_t)"
    by simp
  also have "\<dots> = signed_take_bit 63 (int p)"
    by (simp only: sint_sbintrunc') simp
  also have "\<dots> = int p"
    using small by (simp add: signed_take_bit_int_eq_self)
  finally show ?thesis .
qed

lemma unat_narrow: "unat (ucast (c :: size_t) :: unsigned) = unat c mod 2 ^ 32"
  by (simp add: unsigned_ucast_eq take_bit_eq_mod)

lemma narrow_of_nat: "(ucast (of_nat n :: size_t) :: unsigned) = of_nat n"
proof -
  have "unat (ucast (of_nat n :: size_t) :: unsigned) = unat (of_nat n :: unsigned)"
    by (simp add: unat_narrow unat_of_nat mod_mod_cancel)
  then show ?thesis
    by (simp only: word_unat_eq_iff)
qed

lemma read_records_concat:
  "\<forall>x \<in> set items. length x = W \<Longrightarrow>
     read_records W (length items) (concat items @ rest) = items"
  by (induction items) simp_all

section \<open>Storing bytes in the sequence\<close>

lemma min_add_diff: "min (a::nat) p + (p - a) = p"
  by arith

lemma length_overwrite: "length (overwrite p d xs) = max (length xs) (p + length d)"
  by (auto simp add: overwrite_def)

lemma drop_overwrite_at: "drop p (overwrite p d xs) = d @ drop (p + length d) xs"
  by (simp add: overwrite_def)

lemma nth_overwrite_before: "i < p \<Longrightarrow> i < length xs \<Longrightarrow> overwrite p d xs ! i = xs ! i"
  by (simp add: overwrite_def nth_append)

lemma overwrite_append:
  "overwrite (p + length a) b (overwrite p a xs) = overwrite p (a @ b) xs"
  by (simp add: overwrite_def min_add_diff) (simp add: ac_simps)

lemma overwrite_again:
  "length a' = length a \<Longrightarrow>
     overwrite p a' (overwrite p (a @ b) xs) = overwrite p (a' @ b) xs"
  by (simp add: overwrite_def min_add_diff)

section \<open>The counted-record writer on a stream in good state\<close>

lemma write_all_Trivial_good:
  "\<not> failed s \<Longrightarrow> put s \<le> length (seq s) \<Longrightarrow>
   write_all (H, TrivialTypeWritePolicy, F) w items s =
     (w\<lparr>count_m := count_m w + of_nat (length items)\<rparr>,
      s\<lparr>seq := overwrite (put s) (concat items) (seq s),
        put := put s + length (concat items),
        journal := journal s @ item_writes (put s) items\<rparr>)"
proof (induction items arbitrary: w s)
  case Nil
  then show ?case by (simp add: overwrite_def)
next
  case (Cons x xs)
  let ?s1 = "ostream_write x s"
  have g: "\<not> failed ?s1" and l: "put ?s1 \<le> length (seq ?s1)"
    using Cons.prems by (simp_all add: ostream_write_def length_overwrite)
  show ?case
    using Cons.prems
    by (simp add: TrivialTypeWritePolicy_Write_def Cons.IH [OF g l])
       (simp add: ostream_write_def overwrite_append add.assoc)
qed

lemma LengthPrefixFinalize_good:
  assumes "\<not> failed s" and "0 \<le> pos_of_size_t (ss + ho)"
  shows "LengthPrefixFinalizeWritePolicy_Write s ss ho c =
     (1, s\<lparr>seq := overwrite (nat (pos_of_size_t (ss + ho))) (unsigned_bytes (ucast c)) (seq s),
           journal := journal s @ [(nat (pos_of_size_t (ss + ho)), unsigned_bytes (ucast c))]\<rparr>)"
  using assms
  by (simp add: LengthPrefixFinalizeWritePolicy_Write_def Let_def tellp_def seekp_def
      ostream_write_def)

lemma EdgeWriter_in_scope:
  assumes good: "\<not> failed s"
  shows "in_scope EdgeWriter s header items =
     (\<lparr>segment_start_m = of_nat (put s), header_offset_m = 0,
        count_m = of_nat (length items)\<rparr>,
      s\<lparr>seq := overwrite (put s) (unsigned_bytes 0 @ concat items) (seq s),
        put := put s + 4 + length (concat items),
        journal := journal s @ (put s, unsigned_bytes 0) # item_writes (put s + 4) items\<rparr>)"
proof -
  let ?s1 = "ostream_write (unsigned_bytes 0) s"
  let ?w0 = "\<lparr>segment_start_m = of_nat (put s), header_offset_m = 0, count_m = 0\<rparr>"
  have g1: "\<not> failed ?s1" and l1: "put ?s1 \<le> length (seq ?s1)"
    using good by (simp_all add: ostream_write_def length_overwrite length_unsigned_bytes)
  have ctor: "OSRMWriter_ctor EdgeWriter s header = (?w0, ?s1)"
    using good
    by (simp add: EdgeWriter_def LengthPrefixHeaderWritePolicy_Write_def size_t_of_pos_def
        tellp_def)
  have "in_scope EdgeWriter s header items = write_all EdgeWriter ?w0 items ?s1"
    by (simp add: in_scope_def ctor)
  also have "\<dots> = (?w0\<lparr>count_m := count_m ?w0 + of_nat (length items)\<rparr>,
      ?s1\<lparr>seq := overwrite (put ?s1) (concat items) (seq ?s1),
        put := put ?s1 + length (concat items),
        journal := journal ?s1 @ item_writes (put ?s1) items\<rparr>)"
    unfolding EdgeWriter_def by (rule write_all_Trivial_good [OF g1 l1])
  also have "\<dots> = (\<lparr>segment_start_m = of_nat (put s), header_offset_m = 0,
        count_m = of_nat (length items)\<rparr>,
      s\<lparr>seq := overwrite (put s) (unsigned_bytes 0 @ concat items) (seq s),
        put := put s + 4 + length (concat items),
        journal := journal s @ (put s, unsigned_bytes 0) # item_writes (put s + 4) items\<rparr>)"
    using good overwrite_append [of "put s" "unsigned_bytes 0" "concat items" "seq s"]
    by (simp add: ostream_write_def length_unsigned_bytes)
  finally show ?thesis .
qed

lemma EdgeWriter_lifetime:
  assumes good: "\<not> failed s" and small: "put s < 2 ^ 63"
  shows "lifetime EdgeWriter s header items =
     s\<lparr>seq := overwrite (put s) (unsigned_bytes (of_nat (length items)) @ concat items) (seq s),
       put := put s + 4 + length (concat items),
       journal := journal s @ (put s, unsigned_bytes 0) # item_writes (put s + 4) items
                    @ [(put s, unsigned_bytes (of_nat (length items)))]\<rparr>"
proof -
  let ?s2 = "s\<lparr>seq := overwrite (put s) (unsigned_bytes 0 @ concat items) (seq s),
        put := put s + 4 + length (concat items),
        journal := journal s @ (put s, unsigned_bytes 0) # item_writes (put s + 4) items\<rparr>"
  let ?n = "unsigned_bytes (of_nat (length items))"
  have pos: "pos_of_size_t (of_nat (put s) + 0) = int (put s)"
    using small by (simp add: pos_of_size_t_def sint_of_nat_small)
  have g2: "\<not> failed ?s2"
    using good by simp
  have fin: "LengthPrefixFinalizeWritePolicy_Write ?s2 (of_nat (put s)) 0 (of_nat (length items)) =
     (1, ?s2\<lparr>seq := overwrite (put s) ?n (seq ?s2),
             journal := journal ?s2 @ [(put s, ?n)]\<rparr>)"
    using LengthPrefixFinalize_good [OF g2, of "of_nat (put s)" 0 "of_nat (length items)"] pos
    by (simp add: narrow_of_nat)
  have again: "overwrite (put s) ?n (overwrite (put s) (unsigned_bytes 0 @ concat items) (seq s)) =
      overwrite (put s) (?n @ concat items) (seq s)"
    by (rule overwrite_again) (simp add: length_unsigned_bytes)
  have "lifetime EdgeWriter s header items =
      OSRMWriter_dtor EdgeWriter
        \<lparr>segment_start_m = of_nat (put s), header_offset_m = 0,
          count_m = of_nat (length items)\<rparr> ?s2"
    by (simp add: lifetime_def EdgeWriter_in_scope [OF good])
  also have "\<dots> = ?s2\<lparr>seq := overwrite (put s) ?n (seq ?s2), journal := journal ?s2 @ [(put s, ?n)]\<rparr>"
    unfolding EdgeWriter_def by (simp add: fin)
  also have "\<dots> = s\<lparr>seq := overwrite (put s) (?n @ concat items) (seq s),
       put := put s + 4 + length (concat items),
       journal := journal s @ (put s, unsigned_bytes 0) # item_writes (put s + 4) items
                    @ [(put s, ?n)]\<rparr>"
    by (simp add: again)
  finally show ?thesis .
qed

lemma NodeWriter_EdgeWriter: "NodeWriter = EdgeWriter"
  by (simp add: NodeWriter_def EdgeWriter_def)

section \<open>Claims about the counted-record writer\<close>

text \<open>
  C1 (as amended). For a stream in good state whose put position \<open>p\<close> is a valid stream
  offset, and every sequence of \<open>N < 2\<^sup>3\<^sup>2\<close> records written through the counted-record
  writer (\<open>EdgeWriter\<close> or \<open>NodeWriter\<close>), the stream holds at \<open>p\<close>, once the writer's
  scope has ended, the four bytes of \<open>N\<close> followed by the raw bytes of the \<open>N\<close> records
  and nothing else of the writer's. A reader that agrees on the record width \<open>W\<close> reads
  back the count \<open>N\<close> and the \<open>N\<close> records as they were written.
\<close>

theorem counted_writer_roundtrip:
  assumes T: "T = EdgeWriter \<or> T = NodeWriter"
    and good: "\<not> failed s" and small: "put s < 2 ^ 63"
    and N: "length items < 2 ^ 32"
    and W: "\<forall>item \<in> set items. length item = W"
  shows "take (4 + length (concat items)) (drop (put s) (seq (lifetime T s header items))) =
           unsigned_bytes (of_nat (length items)) @ concat items
         \<and> unat (read_unsigned (drop (put s) (seq (lifetime T s header items)))) = length items
         \<and> read_segment W (drop (put s) (seq (lifetime T s header items))) = (length items, items)
         \<and> put (lifetime T s header items) = put s + 4 + length (concat items)
         \<and> \<not> failed (lifetime T s header items)"
proof -
  let ?n = "unsigned_bytes (of_nat (length items))"
  let ?s' = "lifetime T s header items"
  have T': "T = EdgeWriter"
    using T by (auto simp add: NodeWriter_EdgeWriter)
  have life: "?s' = s\<lparr>seq := overwrite (put s) (?n @ concat items) (seq s),
       put := put s + 4 + length (concat items),
       journal := journal s @ (put s, unsigned_bytes 0) # item_writes (put s + 4) items
                    @ [(put s, ?n)]\<rparr>"
    unfolding T' by (rule EdgeWriter_lifetime [OF good small])
  have layout: "drop (put s) (seq ?s') =
      ?n @ concat items @ drop (put s + length (?n @ concat items)) (seq s)"
    by (simp add: life drop_overwrite_at)
  have count: "unat (of_nat (length items) :: unsigned) = length items"
    using N by (simp add: unat_of_nat)
  have prefix: "read_unsigned (drop (put s) (seq ?s')) = of_nat (length items)"
    by (simp only: layout read_unsigned_bytes)
  have records: "read_records W (length items) (drop 4 (drop (put s) (seq ?s'))) = items"
    using read_records_concat [OF W] by (simp add: layout length_unsigned_bytes)
  have segment: "take (4 + length (concat items)) (drop (put s) (seq ?s')) = ?n @ concat items"
    by (simp add: layout length_unsigned_bytes)
  have "put ?s' = put s + 4 + length (concat items)" and "\<not> failed ?s'"
    using good by (simp_all add: life)
  moreover have "read_segment W (drop (put s) (seq ?s')) = (length items, items)"
    unfolding read_segment_def Let_def by (simp only: prefix count records)
  ultimately show ?thesis
    using segment by (simp only: prefix count) simp
qed


text \<open>
  The roundtrip of C1 at three records of two bytes, written to an empty stream.
\<close>

theorem counted_writer_roundtrip_witness:
  "\<not> failed empty_stream \<and> put empty_stream < 2 ^ 63
   \<and> seq (lifetime EdgeWriter empty_stream [7, 7] [[1, 2], [3, 4], [5, 6]]) =
       [3, 0, 0, 0, 1, 2, 3, 4, 5, 6]
   \<and> read_segment 2 (seq (lifetime EdgeWriter empty_stream [7, 7] [[1, 2], [3, 4], [5, 6]])) =
       (3, [[1, 2], [3, 4], [5, 6]])
   \<and> put (lifetime EdgeWriter empty_stream [7, 7] [[1, 2], [3, 4], [5, 6]]) = 10"
proof -
  have good: "\<not> failed empty_stream" and small: "put empty_stream < 2 ^ 63"
    by (simp_all add: empty_stream_def)
  have N: "length [[1, 2], [3, 4], [5, 6 :: byte]] < 2 ^ 32"
    by simp
  have W: "\<forall>item \<in> set [[1, 2], [3, 4], [5, 6 :: byte]]. length item = 2"
    by simp
  have start: "put empty_stream = 0" and len: "length (seq empty_stream) = 0"
    by (simp_all add: empty_stream_def)
  from counted_writer_roundtrip [OF disjI1 [OF refl] good small N W, of "[7, 7]"]
  have "take 10 (seq (lifetime EdgeWriter empty_stream [7, 7] [[1, 2], [3, 4], [5, 6]])) =
          [3, 0, 0, 0, 1, 2, 3, 4, 5, 6]"
    and "read_segment 2 (seq (lifetime EdgeWriter empty_stream [7, 7] [[1, 2], [3, 4], [5, 6]])) =
       (3, [[1, 2], [3, 4], [5, 6]])"
    and "put (lifetime EdgeWriter empty_stream [7, 7] [[1, 2], [3, 4], [5, 6]]) = 10"
    by (simp_all add: start unsigned_bytes_def)
  moreover have "length (seq (lifetime EdgeWriter empty_stream [7, 7] [[1, 2], [3, 4], [5, 6]])) = 10"
    by (simp add: EdgeWriter_lifetime [OF good small] length_overwrite start len length_unsigned_bytes)
  ultimately show ?thesis
    using good small by simp
qed

text \<open>
  C1 as the spec states it, for every \<open>N\<close>, fails at \<open>N = 2\<^sup>3\<^sup>2\<close>: after \<open>2\<^sup>3\<^sup>2\<close>
  one-byte records the finalizer narrows the count to \<^verbatim>\<open>unsigned\<close>, and the prefix
  a reader finds is \<open>0\<close>.
\<close>

theorem counted_writer_roundtrip_counterexample:
  "unat (read_unsigned (seq (lifetime EdgeWriter empty_stream [] (replicate (2 ^ 32) [0])))) = 0
   \<and> length (replicate (2 ^ 32) [0 :: byte]) = 2 ^ 32"
proof -
  have good: "\<not> failed empty_stream" and small: "put empty_stream < 2 ^ 63"
    by (simp_all add: empty_stream_def)
  have "seq (lifetime EdgeWriter empty_stream [] (replicate (2 ^ 32) [0])) =
      overwrite 0 (unsigned_bytes (of_nat (length (replicate (2 ^ 32) [0 :: byte])))
        @ concat (replicate (2 ^ 32) [0])) []"
    by (simp only: EdgeWriter_lifetime [OF good small]) (simp add: empty_stream_def)
  also have "\<dots> = unsigned_bytes (of_nat (2 ^ 32)) @ concat (replicate (2 ^ 32) [0])"
    by (simp only: overwrite_def length_replicate) simp
  finally have "read_unsigned (seq (lifetime EdgeWriter empty_stream [] (replicate (2 ^ 32) [0]))) =
      of_nat (2 ^ 32)"
    by (simp only: read_unsigned_bytes)
  moreover have "unat (of_nat (2 ^ 32) :: unsigned) = 0"
    by (simp add: unat_of_nat)
  ultimately show ?thesis
    by (simp only: length_replicate)
qed

lemma emitted_append: "journal s' = journal s @ new \<Longrightarrow> emitted s s' = new"
  by (simp add: emitted_def)

text \<open>
  C2. A counted-record writer on which \<^verbatim>\<open>Write\<close> is never called, on a stream in
  good state at a valid position \<open>p\<close>: the header policy stores the four zero bytes of
  the placeholder at \<open>p\<close>, the finalizer stores the count \<open>0\<close> over them, and these are
  the only two writes. The segment is the four bytes of the placeholder: the put
  position ends at \<open>p + 4\<close>, and the stream is no longer than it was or than \<open>p + 4\<close>.
\<close>

theorem counted_writer_no_items:
  assumes T: "T = EdgeWriter \<or> T = NodeWriter"
    and good: "\<not> failed s" and small: "put s < 2 ^ 63"
  shows "emitted s (lifetime T s header []) = [(put s, [0, 0, 0, 0]), (put s, [0, 0, 0, 0])]
         \<and> take 4 (drop (put s) (seq (lifetime T s header []))) = [0, 0, 0, 0]
         \<and> read_unsigned (drop (put s) (seq (lifetime T s header []))) = 0
         \<and> put (lifetime T s header []) = put s + 4
         \<and> length (seq (lifetime T s header [])) = max (length (seq s)) (put s + 4)
         \<and> \<not> failed (lifetime T s header [])"
proof -
  let ?s' = "lifetime T s header []"
  have T': "T = EdgeWriter"
    using T by (auto simp add: NodeWriter_EdgeWriter)
  have life: "?s' = s\<lparr>seq := overwrite (put s) (unsigned_bytes 0) (seq s), put := put s + 4,
      journal := journal s @ [(put s, unsigned_bytes 0), (put s, unsigned_bytes 0)]\<rparr>"
    unfolding T' by (simp add: EdgeWriter_lifetime [OF good small])
  have "emitted s ?s' = [(put s, [0, 0, 0, 0]), (put s, [0, 0, 0, 0])]"
    by (rule emitted_append) (simp add: life unsigned_bytes_0)
  moreover have "drop (put s) (seq ?s') = unsigned_bytes 0 @ drop (put s + 4) (seq s)"
    by (simp add: life drop_overwrite_at length_unsigned_bytes)
  then have "take 4 (drop (put s) (seq ?s')) = [0, 0, 0, 0]"
    and "read_unsigned (drop (put s) (seq ?s')) = 0"
    by (simp_all only: read_unsigned_bytes) (simp add: unsigned_bytes_0)
  moreover have "put ?s' = put s + 4" and "\<not> failed ?s'"
    and "length (seq ?s') = max (length (seq s)) (put s + 4)"
    using good by (simp_all add: life length_overwrite length_unsigned_bytes)
  ultimately show ?thesis
    by simp
qed

text \<open>C2 on an empty stream: the stream afterwards is the four zero bytes.\<close>

theorem counted_writer_no_items_witness:
  "\<not> failed empty_stream \<and> put empty_stream < 2 ^ 63
   \<and> seq (lifetime EdgeWriter empty_stream [] []) = [0, 0, 0, 0]
   \<and> put (lifetime EdgeWriter empty_stream [] []) = 4
   \<and> emitted empty_stream (lifetime EdgeWriter empty_stream [] []) =
       [(0, [0, 0, 0, 0]), (0, [0, 0, 0, 0])]"
proof -
  have good: "\<not> failed empty_stream" and small: "put empty_stream < 2 ^ 63"
    by (simp_all add: empty_stream_def)
  have start: "put empty_stream = 0" and len: "length (seq empty_stream) = 0"
    by (simp_all add: empty_stream_def)
  from counted_writer_no_items [OF disjI1 [OF refl] good small, of "[]"]
  have "take 4 (seq (lifetime EdgeWriter empty_stream [] [])) = [0, 0, 0, 0]"
    and "length (seq (lifetime EdgeWriter empty_stream [] [])) = 4"
    and "put (lifetime EdgeWriter empty_stream [] []) = 4"
    and "emitted empty_stream (lifetime EdgeWriter empty_stream [] []) =
       [(0, [0, 0, 0, 0]), (0, [0, 0, 0, 0])]"
    by (simp_all add: start len)
  then show ?thesis
    using good small by simp
qed

section \<open>Claims about the header-only writer\<close>

lemma HeaderWriter_write_all:
  "write_all (H, NoTypeWritePolicy, F) w items s = (w, s)"
  by (induction items) (simp_all add: NoTypeWritePolicy_Write_def)

lemma HeaderWriter_lifetime: "lifetime HeaderWriter s header items = ostream_write header s"
  by (simp add: lifetime_def in_scope_def HeaderWriter_def TrivialHeaderWritePolicy_Write_def
      HeaderWriter_write_all NoFinalizeWritePolicy_Write_def)

text \<open>
  C5. On a stream in good state at \<open>p\<close>, the lifetime of a \<open>HeaderWriter\<close> constructed
  with a header of \<open>W\<close> bytes makes one write, of the header's bytes as they are, at \<open>p\<close>:
  the put position ends at \<open>p + W\<close>, with no length prefix before the header and nothing
  after it (\<^verbatim>\<open>Write\<close> calls, if any, store nothing).
\<close>

theorem header_writer_output:
  assumes good: "\<not> failed s"
  shows "emitted s (lifetime HeaderWriter s header items) = [(put s, header)]
         \<and> take (length header) (drop (put s) (seq (lifetime HeaderWriter s header items))) = header
         \<and> put (lifetime HeaderWriter s header items) = put s + length header
         \<and> length (seq (lifetime HeaderWriter s header items)) =
             max (length (seq s)) (put s + length header)
         \<and> \<not> failed (lifetime HeaderWriter s header items)"
  using good
  by (simp add: HeaderWriter_lifetime ostream_write_def emitted_def drop_overwrite_at
      length_overwrite)

text \<open>C5 at a header of 16 bytes on an empty stream.\<close>

theorem header_writer_output_witness:
  "\<not> failed empty_stream
   \<and> seq (lifetime HeaderWriter empty_stream [1, 2, 3, 4, 5, 6, 7, 8, 9, 10, 11, 12, 13, 14, 15, 16] [])
       = [1, 2, 3, 4, 5, 6, 7, 8, 9, 10, 11, 12, 13, 14, 15, 16]
   \<and> put (lifetime HeaderWriter empty_stream [1, 2, 3, 4, 5, 6, 7, 8, 9, 10, 11, 12, 13, 14, 15, 16] [])
       = 16"
proof -
  have good: "\<not> failed empty_stream"
    by (simp add: empty_stream_def)
  have start: "put empty_stream = 0" and len: "length (seq empty_stream) = 0"
    by (simp_all add: empty_stream_def)
  let ?h = "[1, 2, 3, 4, 5, 6, 7, 8, 9, 10, 11, 12, 13, 14, 15, 16 :: byte]"
  have hl: "length ?h = 16"
    by simp
  from header_writer_output [OF good, of ?h "[]", unfolded hl start]
  have "take 16 (seq (lifetime HeaderWriter empty_stream ?h [])) = ?h"
    and "length (seq (lifetime HeaderWriter empty_stream ?h [])) = 16"
    and "put (lifetime HeaderWriter empty_stream ?h []) = 16"
    by (simp_all add: start len)
  then show ?thesis
    using good by simp
qed

section \<open>Claims about the finalizer\<close>

text \<open>
  C9. When the finalizer of the counted-record writer runs with a count of \<open>2\<^sup>3\<^sup>2\<close> or
  more (on a stream in good state, the writer's placeholder at a valid position), it
  makes one write, of the count narrowed to \<^verbatim>\<open>unsigned\<close>: the value a reader finds
  there is the count modulo \<open>2\<^sup>3\<^sup>2\<close>, which is less than the count. Nothing checks the
  overflow: the finalizer returns \<open>1\<close> and the stream is still in good state.
\<close>

theorem finalize_narrows_count:
  assumes good: "\<not> failed s"
    and target: "0 \<le> pos_of_size_t (segment_start_m w + header_offset_m w)"
    and big: "2 ^ 32 \<le> unat (count_m w)"
  shows "LengthPrefixFinalizeWritePolicy_Write s (segment_start_m w) (header_offset_m w) (count_m w) =
           (1, OSRMWriter_dtor EdgeWriter w s)
         \<and> emitted s (OSRMWriter_dtor EdgeWriter w s) =
             [(nat (pos_of_size_t (segment_start_m w + header_offset_m w)),
               unsigned_bytes (ucast (count_m w)))]
         \<and> unat (read_unsigned (drop (nat (pos_of_size_t (segment_start_m w + header_offset_m w)))
               (seq (OSRMWriter_dtor EdgeWriter w s)))) = unat (count_m w) mod 2 ^ 32
         \<and> unat (count_m w) mod 2 ^ 32 < unat (count_m w)
         \<and> \<not> failed (OSRMWriter_dtor EdgeWriter w s)"
proof -
  let ?at = "nat (pos_of_size_t (segment_start_m w + header_offset_m w))"
  let ?len = "unsigned_bytes (ucast (count_m w))"
  let ?s' = "s\<lparr>seq := overwrite ?at ?len (seq s), journal := journal s @ [(?at, ?len)]\<rparr>"
  have fin: "LengthPrefixFinalizeWritePolicy_Write s (segment_start_m w) (header_offset_m w) (count_m w)
      = (1, ?s')"
    by (rule LengthPrefixFinalize_good [OF good target])
  then have dtor: "OSRMWriter_dtor EdgeWriter w s = ?s'"
    by (simp add: EdgeWriter_def)
  have "emitted s ?s' = [(?at, ?len)]"
    by (rule emitted_append) simp
  moreover have "read_unsigned (drop ?at (seq ?s')) = ucast (count_m w)"
    by (simp add: drop_overwrite_at read_unsigned_bytes)
  then have "unat (read_unsigned (drop ?at (seq ?s'))) = unat (count_m w) mod 2 ^ 32"
    by (simp only: unat_narrow)
  moreover have "unat (count_m w) mod 2 ^ 32 < unat (count_m w)"
  proof -
    have "unat (count_m w) mod 2 ^ 32 < (2 ^ 32 :: nat)"
      by simp
    with big show ?thesis
      by linarith
  qed
  moreover have "\<not> failed ?s'"
    using good by simp
  ultimately show ?thesis
    by (simp only: fin dtor) simp
qed

text \<open>C9 at the count \<open>2\<^sup>3\<^sup>2 + 5\<close>: the bytes of \<open>5\<close> are stored.\<close>

theorem finalize_narrows_count_witness:
  "\<not> failed empty_stream
   \<and> (2 :: nat) ^ 32 \<le> unat (4294967301 :: size_t)
   \<and> seq (OSRMWriter_dtor EdgeWriter
        \<lparr>segment_start_m = 0, header_offset_m = 0, count_m = 4294967301\<rparr> empty_stream) =
       [5, 0, 0, 0]
   \<and> \<not> failed (OSRMWriter_dtor EdgeWriter
        \<lparr>segment_start_m = 0, header_offset_m = 0, count_m = 4294967301\<rparr> empty_stream)"
proof -
  let ?w = "\<lparr>segment_start_m = 0, header_offset_m = 0, count_m = 4294967301\<rparr>"
  have good: "\<not> failed empty_stream"
    by (simp add: empty_stream_def)
  have target: "0 \<le> pos_of_size_t (segment_start_m ?w + header_offset_m ?w)"
    by (simp add: pos_of_size_t_def)
  have big: "2 ^ 32 \<le> unat (count_m ?w)"
    by simp
  have at: "nat (pos_of_size_t (segment_start_m ?w + header_offset_m ?w)) = 0"
    by (simp add: pos_of_size_t_def)
  have bytes: "unsigned_bytes (ucast (4294967301 :: size_t)) = [5, 0, 0, 0]"
    and bytes': "unsigned_bytes 4294967301 = [5, 0, 0, 0]"
    and p0: "pos_of_size_t 0 = 0"
    by (simp_all add: unsigned_bytes_def pos_of_size_t_def)
  from finalize_narrows_count [OF good target big]
  have "emitted empty_stream (OSRMWriter_dtor EdgeWriter ?w empty_stream) = [(0, [5, 0, 0, 0])]"
    and "\<not> failed (OSRMWriter_dtor EdgeWriter ?w empty_stream)"
    by (simp_all add: p0 bytes')
  moreover have "seq (OSRMWriter_dtor EdgeWriter ?w empty_stream) = [5, 0, 0, 0]"
    using LengthPrefixFinalize_good [OF good target, of "count_m ?w"]
    by (simp add: EdgeWriter_def p0 bytes' overwrite_def empty_stream_def)
  ultimately show ?thesis
    using good by simp
qed

lemma LengthPrefixFinalize_put:
  "put (snd (LengthPrefixFinalizeWritePolicy_Write s ss ho c)) = put s"
  by (simp add: LengthPrefixFinalizeWritePolicy_Write_def Let_def tellp_def seekp_def
      ostream_write_def)

text \<open>
  C3. For every writer type, every state of the writer and every state of the stream,
  the destructor (which runs the finalizer) leaves the put position where it found it;
  in particular it does so at the end of a lifetime, whatever the number of items
  written. (On a stream that has failed, and when the finalizer's first \<^verbatim>\<open>seekp\<close>
  fails, the remaining calls do nothing; otherwise the write succeeds and the last
  \<^verbatim>\<open>seekp\<close> returns to the position \<^verbatim>\<open>tellp\<close> gave.)
\<close>

theorem finalize_restores_position:
  "put (OSRMWriter_dtor T w s) = put s
   \<and> put (lifetime T s header items) = put (snd (in_scope T s header items))"
proof -
  obtain H I F where T: "T = (H, I, F)"
    by (cases T) auto
  have dtor: "put (OSRMWriter_dtor T w' s') = put s'" for w' s'
  proof (cases F)
    case NoFinalizeWritePolicy
    then show ?thesis
      by (simp add: T NoFinalizeWritePolicy_Write_def)
  next
    case LengthPrefixFinalizeWritePolicy
    then show ?thesis
      using LengthPrefixFinalize_put [of s' "segment_start_m w'" "header_offset_m w'" "count_m w'"]
      by (simp add: T split_def)
  qed
  show ?thesis
    by (simp add: dtor lifetime_def split_def Let_def)
qed

text \<open>C3 after two records of two bytes: the position is 8 before and after.\<close>

theorem finalize_restores_position_witness:
  "put (lifetime EdgeWriter empty_stream [] [[1, 2], [3, 4]]) = 8
   \<and> put (snd (in_scope EdgeWriter empty_stream [] [[1, 2], [3, 4]])) = 8"
proof -
  have good: "\<not> failed empty_stream"
    by (simp add: empty_stream_def)
  have "put (snd (in_scope EdgeWriter empty_stream [] [[1, 2], [3, 4]])) = 8"
    by (simp only: EdgeWriter_in_scope [OF good]) (simp add: empty_stream_def)
  with finalize_restores_position [where T = EdgeWriter and s = empty_stream and header = "[]"
      and items = "[[1, 2], [3, 4]]"]
  show ?thesis
    by simp
qed

section \<open>The running count\<close>

lemma write_all_Trivial_writer:
  "fst (write_all (H, TrivialTypeWritePolicy, F) w items s) =
     w\<lparr>count_m := count_m w + of_nat (length items)\<rparr>"
proof (induction items arbitrary: w s)
  case Nil
  then show ?case by simp
next
  case (Cons item items)
  show ?case
    by (simp add: TrivialTypeWritePolicy_Write_def Cons.IH add.assoc add.commute)
qed


lemma EdgeWriter_Count: "Count (fst (in_scope EdgeWriter s header items)) = of_nat (length items)"
  by (simp add: in_scope_def split_def Count_def EdgeWriter_def write_all_Trivial_writer
      LengthPrefixHeaderWritePolicy_Write_def)

lemma unat_size_t_of_nat: "n < 2 ^ 64 \<Longrightarrow> unat (of_nat n :: size_t) = n"
  by (simp add: unat_of_nat)

text \<open>
  C4. For a counted-record writer, whatever the state of the stream: after \<open>k\<close> calls
  of \<^verbatim>\<open>Write\<close> (the first \<open>k\<close> of \<open>N\<close> items, \<open>N\<close> within the range of
  \<^verbatim>\<open>std::size_t\<close>, the type of the count) and before the destructor runs,
  \<^verbatim>\<open>Count()\<close> is exactly \<open>k\<close>, and it is at most the count after all \<open>N\<close> calls: the
  count never decreases. \<open>Count\<close> is a function of the writer's members that returns
  a value only, so it has no effect on the writer or the stream.
\<close>

theorem Count_after_k_writes:
  assumes T: "T = EdgeWriter \<or> T = NodeWriter"
    and k: "k \<le> length items" and N: "length items < 2 ^ 64"
  shows "Count (fst (in_scope T s header (take k items))) = of_nat k
         \<and> unat (Count (fst (in_scope T s header (take k items)))) = k
         \<and> Count (fst (in_scope T s header (take k items))) \<le>
             Count (fst (in_scope T s header items))"
proof -
  have T': "T = EdgeWriter"
    using T by (auto simp add: NodeWriter_EdgeWriter)
  have len: "length (take k items) = k"
    using k by simp
  have k64: "k < 2 ^ 64"
    using k N by simp
  have a: "Count (fst (in_scope T s header (take k items))) = of_nat k"
    unfolding T' by (simp only: EdgeWriter_Count len)
  have b: "Count (fst (in_scope T s header items)) = of_nat (length items)"
    unfolding T' by (rule EdgeWriter_Count)
  have "(of_nat k :: size_t) \<le> of_nat (length items)"
    using k by (simp add: word_le_nat_alt unat_size_t_of_nat [OF k64] unat_size_t_of_nat [OF N])
  then show ?thesis
    by (simp add: a b unat_size_t_of_nat [OF k64])
qed

text \<open>C4 after two of three records.\<close>

theorem Count_after_k_writes_witness:
  "(2 :: nat) \<le> length [[1, 2], [3, 4], [5, 6 :: byte]]
   \<and> unat (Count (fst (in_scope EdgeWriter empty_stream [] [[1, 2], [3, 4]]))) = 2
   \<and> Count (fst (in_scope EdgeWriter empty_stream [] [[1, 2], [3, 4]])) \<le>
         Count (fst (in_scope EdgeWriter empty_stream [] [[1, 2], [3, 4], [5, 6]]))"
proof -
  have k: "2 \<le> length [[1, 2], [3, 4], [5, 6 :: byte]]"
    and N: "length [[1, 2], [3, 4], [5, 6 :: byte]] < 2 ^ 64"
    by simp_all
  have prefix: "take 2 [[1, 2], [3, 4], [5, 6 :: byte]] = [[1, 2], [3, 4]]"
    by simp
  from Count_after_k_writes [OF disjI1 [OF refl] k N, of empty_stream "[]", unfolded prefix]
  show ?thesis
    using k by blast
qed

section \<open>A stream that has failed\<close>

lemma HeaderWritePolicy_failed:
  "failed s \<Longrightarrow> snd (HeaderWritePolicy_Write H header s ss c) = s"
  by (cases H)
    (simp_all add: NoHeaderWritePolicy_Write_def TrivialHeaderWritePolicy_Write_def
      LengthPrefixHeaderWritePolicy_Write_def ostream_write_def)

lemma TypeWritePolicy_failed:
  "failed s \<Longrightarrow> snd (TypeWritePolicy_Write I item s ss ho c) = s"
  by (cases I)
    (simp_all add: NoTypeWritePolicy_Write_def TrivialTypeWritePolicy_Write_def ostream_write_def)

lemma FinalizeWritePolicy_failed:
  "failed s \<Longrightarrow> snd (FinalizeWritePolicy_Write F s ss ho c) = s"
  by (cases F)
    (simp_all add: NoFinalizeWritePolicy_Write_def LengthPrefixFinalizeWritePolicy_Write_def
      Let_def seekp_def ostream_write_def)

lemma ctor_failed: "failed s \<Longrightarrow> snd (OSRMWriter_ctor T s header) = s"
  by (cases T) (simp add: split_def Let_def HeaderWritePolicy_failed)

lemma write_all_failed: "failed s \<Longrightarrow> snd (write_all T w items s) = s"
proof (induction items arbitrary: w)
  case Nil
  then show ?case by simp
next
  case (Cons item items)
  obtain H I F where T: "T = (H, I, F)"
    by (cases T) auto
  from Cons.prems show ?case
    by (simp add: T split_def TypeWritePolicy_failed Cons.IH [unfolded T])
qed

lemma dtor_failed: "failed s \<Longrightarrow> OSRMWriter_dtor T w s = s"
  by (cases T) (simp add: split_def FinalizeWritePolicy_failed)

lemma write_all_append:
  "write_all T w (xs @ ys) s =
     write_all T (fst (write_all T w xs s)) ys (snd (write_all T w xs s))"
  by (induction xs arbitrary: w s) (simp_all add: split_def Let_def)

lemma in_scope_split:
  "in_scope T s header items =
     write_all T (fst (in_scope T s header (take k items))) (drop k items)
       (snd (in_scope T s header (take k items)))"
proof -
  have "in_scope T s header (take k items @ drop k items) =
     write_all T (fst (in_scope T s header (take k items))) (drop k items)
       (snd (in_scope T s header (take k items)))"
    unfolding in_scope_def split_def Let_def by (rule write_all_append)
  then show ?thesis
    by simp
qed

lemma lifetime_failed_after:
  assumes "failed (snd (in_scope T s header (take k items)))"
  shows "lifetime T s header items = snd (in_scope T s header (take k items))"
proof -
  let ?sk = "snd (in_scope T s header (take k items))"
  have "snd (in_scope T s header items) = ?sk"
    by (subst in_scope_split [of T s header items k]) (rule write_all_failed [OF assms])
  then show ?thesis
    using assms by (simp add: lifetime_def split_def Let_def dtor_failed)
qed




lemma lifetime_failed: "failed s \<Longrightarrow> lifetime T s header items = s"
proof -
  assume f: "failed s"
  have "snd (in_scope T s header (take 0 items)) = s"
    by (simp add: in_scope_def split_def Let_def ctor_failed [OF f])
  with f lifetime_failed_after [of T s header 0 items] show ?thesis
    by simp
qed









section \<open>Where the bytes land\<close>

lemma item_writes_from: "e \<in> set (item_writes q items) \<Longrightarrow> q \<le> fst e"
  by (induction items arbitrary: q) fastforce+

lemma ctor_segment_start:
  "segment_start_m (fst (OSRMWriter_ctor T s header)) = size_t_of_pos (tellp s)"
  by (cases T) (simp add: split_def Let_def)

text \<open>
  C6. For the canonical writer types, on a stream whose put position is a valid
  stream offset: every write that reaches the device during the lifetime (the header,
  the items, the finalizer's patch) starts at a position that is at least
  \<^verbatim>\<open>segment_start_\<close>, which is the stream's position at construction when the stream is
  in good state, and the bytes the stream held before that position are unchanged; the
  header offset of the counted-record writers is 0.
\<close>

theorem writes_from_segment_start:
  assumes T: "T = HeaderWriter \<or> T = EdgeWriter \<or> T = NodeWriter"
    and small: "put s < 2 ^ 63"
  shows "journal (lifetime T s header items) = journal s @ emitted s (lifetime T s header items)
         \<and> (\<forall>e \<in> set (emitted s (lifetime T s header items)).
               unat (segment_start_m (fst (OSRMWriter_ctor T s header))) \<le> fst e)
         \<and> (\<forall>i < put s. i < length (seq s) \<longrightarrow>
               seq (lifetime T s header items) ! i = seq s ! i)
         \<and> (failed s \<or> unat (segment_start_m (fst (OSRMWriter_ctor T s header))) = put s)
         \<and> (T = HeaderWriter \<or> header_offset_m (fst (OSRMWriter_ctor T s header)) = 0)"
proof (cases "failed s")
  case True
  have "emitted s s = []"
    by (simp add: emitted_def)
  moreover have "T = HeaderWriter \<or> header_offset_m (fst (OSRMWriter_ctor T s header)) = 0"
    using T
    by (auto simp add: NodeWriter_def EdgeWriter_def LengthPrefixHeaderWritePolicy_Write_def)
  ultimately show ?thesis
    using True by (simp add: lifetime_failed)
next
  case False
  have "put s < 2 ^ 64"
    using small by (rule less_trans) simp
  then have start: "unat (segment_start_m (fst (OSRMWriter_ctor T s header))) = put s"
    using False by (simp add: ctor_segment_start tellp_def size_t_of_pos_def unat_size_t_of_nat)
  show ?thesis
  proof (cases "T = HeaderWriter")
    case True
    have "journal (lifetime T s header items) = journal s @ [(put s, header)]"
      using False by (simp add: True HeaderWriter_lifetime ostream_write_def)
    moreover from this have "emitted s (lifetime T s header items) = [(put s, header)]"
      by (rule emitted_append)
    moreover have "seq (lifetime T s header items) = overwrite (put s) header (seq s)"
      using False by (simp add: True HeaderWriter_lifetime ostream_write_def)
    ultimately show ?thesis
      using True start by (simp add: nth_overwrite_before)
  next
    case False
    with T have T': "T = EdgeWriter"
      by (auto simp add: NodeWriter_EdgeWriter)
    let ?new = "(put s, unsigned_bytes 0) # item_writes (put s + 4) items
        @ [(put s, unsigned_bytes (of_nat (length items)))]"
    have j: "journal (lifetime T s header items) = journal s @ ?new"
      by (simp add: T' EdgeWriter_lifetime [OF \<open>\<not> failed s\<close> small])
    have "seq (lifetime T s header items) =
        overwrite (put s) (unsigned_bytes (of_nat (length items)) @ concat items) (seq s)"
      by (simp add: T' EdgeWriter_lifetime [OF \<open>\<not> failed s\<close> small])
    then have frame: "\<forall>i < put s. i < length (seq s) \<longrightarrow>
        seq (lifetime T s header items) ! i = seq s ! i"
      by (simp add: nth_overwrite_before)
    from j have e: "emitted s (lifetime T s header items) = ?new"
      by (rule emitted_append)
    have "put s \<le> fst e" if "e \<in> set ?new" for e
      using that item_writes_from [of e "put s + 4" items] by auto
    moreover have "header_offset_m (fst (OSRMWriter_ctor T s header)) = 0"
      by (simp add: T' EdgeWriter_def LengthPrefixHeaderWritePolicy_Write_def)
    ultimately show ?thesis
      using frame by (simp only: j e start) simp
  qed
qed

text \<open>C6 for a segment that starts at position 3: the writes start at 3, 7, 9 and 3.\<close>

theorem writes_from_segment_start_witness:
  "put (empty_stream\<lparr>seq := [9, 9, 9], put := 3\<rparr>) < 2 ^ 63
   \<and> unat (segment_start_m (fst (OSRMWriter_ctor EdgeWriter
         (empty_stream\<lparr>seq := [9, 9, 9], put := 3\<rparr>) []))) = 3
   \<and> emitted (empty_stream\<lparr>seq := [9, 9, 9], put := 3\<rparr>)
        (lifetime EdgeWriter (empty_stream\<lparr>seq := [9, 9, 9], put := 3\<rparr>) [] [[1, 2], [3, 4]]) =
       [(3, [0, 0, 0, 0]), (7, [1, 2]), (9, [3, 4]), (3, [2, 0, 0, 0])]
   \<and> seq (lifetime EdgeWriter (empty_stream\<lparr>seq := [9, 9, 9], put := 3\<rparr>) [] [[1, 2], [3, 4]]) =
       [9, 9, 9, 2, 0, 0, 0, 1, 2, 3, 4]
   \<and> header_offset_m (fst (OSRMWriter_ctor EdgeWriter
         (empty_stream\<lparr>seq := [9, 9, 9], put := 3\<rparr>) [])) = 0"
proof -
  let ?s = "empty_stream\<lparr>seq := [9, 9, 9], put := 3\<rparr>"
  have good: "\<not> failed ?s" and small: "put ?s < 2 ^ 63"
    by (simp_all add: empty_stream_def)
  have T: "EdgeWriter = HeaderWriter \<or> EdgeWriter = EdgeWriter \<or> EdgeWriter = NodeWriter"
    by simp
  have ne: "EdgeWriter \<noteq> HeaderWriter"
    by (simp add: EdgeWriter_def HeaderWriter_def)
  have "emitted ?s (lifetime EdgeWriter ?s [] [[1, 2], [3, 4]]) =
       [(3, [0, 0, 0, 0]), (7, [1, 2]), (9, [3, 4]), (3, [2, 0, 0, 0])]"
    by (rule emitted_append)
      (simp add: EdgeWriter_lifetime [OF good small] unsigned_bytes_def)
  moreover have "seq (lifetime EdgeWriter ?s [] [[1, 2], [3, 4]]) = [9, 9, 9, 2, 0, 0, 0, 1, 2, 3, 4]"
    by (simp add: EdgeWriter_lifetime [OF good small] unsigned_bytes_def overwrite_def)
  ultimately show ?thesis
    using writes_from_segment_start [OF T small, of "[]" "[[1, 2], [3, 4]]"] good ne small
    by simp
qed

end
